theory Spec2Isabelle
  imports Main "HOL-Library.Word"
begin

section \<open>Value types of the tracing overrides\<close>

text \<open>
  The file \<^verbatim>\<open>chain/types/ethtypes/tracing.go\<close> uses the package's value types
  \<^verbatim>\<open>EthUint64\<close>, \<^verbatim>\<open>EthBigInt\<close>, \<^verbatim>\<open>EthAddress\<close>, \<^verbatim>\<open>EthHash\<close> and \<^verbatim>\<open>EthBytes\<close>
  and the interface \<^verbatim>\<open>StateDB\<close>; none of them is declared in the file itself.
  What the file shows of them is kept: \<^verbatim>\<open>EthAddress\<close> and \<^verbatim>\<open>EthHash\<close> are two different
  named types, \<^verbatim>\<open>EthUint64\<close> converts to \<^verbatim>\<open>uint64\<close>, and an \<^verbatim>\<open>EthBigInt\<close> has a field
  \<^verbatim>\<open>Int\<close> holding a \<^verbatim>\<open>*big.Int\<close>.

  A Go pointer \<^verbatim>\<open>*T\<close> is an \<open>option\<close>: \<open>None\<close> is \<^verbatim>\<open>nil\<close>. A \<^verbatim>\<open>*big.Int\<close> is read by
  the number it holds (\<open>int option\<close>); which allocation holds the number is not part of
  the model, so two contexts are compared by value.
\<close>

type_synonym uint64 = "64 word"

text \<open>
  Modelled from the spec: the declaration of \<^verbatim>\<open>EthUint64\<close> is missing from the file.
  The spec calls an override of this type "a 64-bit unsigned override value", and the
  file converts it with \<^verbatim>\<open>uint64(...)\<close>.
\<close>

type_synonym EthUint64 = "64 word"

text \<open>
  Modelled from the spec: the declarations of \<^verbatim>\<open>EthAddress\<close> and \<^verbatim>\<open>EthHash\<close> are
  missing from the file. The spec calls addresses and storage slots "fixed-width
  hexadecimal identifiers"; the widths taken here are Ethereum's, 20 bytes for an address
  and 32 bytes for a hash. Each is a type of its own, as a named Go type is.
\<close>

datatype EthAddress = EthAddress "160 word"

datatype EthHash = EthHash "256 word"

type_synonym EthBytes = "8 word list"

text \<open>
  \<^verbatim>\<open>diff.Number.Int\<close> is assigned to a \<^verbatim>\<open>*big.Int\<close> field, so \<^verbatim>\<open>EthBigInt\<close> is a struct
  with a \<^verbatim>\<open>*big.Int\<close> field \<^verbatim>\<open>Int\<close> (written \<open>Int'\<close>: \<open>Int\<close> is taken by HOL).
\<close>

record EthBigInt =
  Int' :: "int option"

typedecl StateDB

section \<open>The structs of tracing.go\<close>

record OverrideAccount =
  Nonce :: "EthUint64 option"
  Code :: "EthBytes option"
  Balance :: "EthBigInt option option"
  State :: "(EthHash \<rightharpoonup> EthHash) option"
  StateDiff :: "(EthHash \<rightharpoonup> EthHash) option"

text \<open>
  \<^verbatim>\<open>type StateOverride map[EthHash]OverrideAccount\<close>. The entries are listed in the order
  in which a \<^verbatim>\<open>range\<close> over the map visits them; Go fixes no such order, so a property
  of a \<open>StateOverride\<close> is stated for every list. The keys of a Go map are unique:
  \<open>wellformed\<close>.
\<close>

type_synonym StateOverride = "(EthHash \<times> OverrideAccount) list"

definition keys :: "('k \<times> OverrideAccount) list \<Rightarrow> 'k list" where
  "keys so = map fst so"

definition wellformed :: "('k \<times> OverrideAccount) list \<Rightarrow> bool" where
  "wellformed so = distinct (keys so)"

record BlockOverrides =
  Number :: "EthBigInt option"
  Difficulty :: "EthBigInt option"
  Time :: "EthUint64 option"
  GasLimit :: "EthUint64 option"
  Coinbase :: "EthAddress option"
  Random :: "EthHash option"
  BaseFee :: "EthUint64 option"

type_synonym CanTransferFunc = "StateDB \<Rightarrow> EthAddress \<Rightarrow> int option \<Rightarrow> bool"

type_synonym TransferFunc = "StateDB \<Rightarrow> EthAddress \<Rightarrow> EthAddress \<Rightarrow> int option \<Rightarrow> StateDB"

text \<open>\<^verbatim>\<open>GetHashFunc func(uint64) EthAddress\<close>: the result type is the one the file declares.\<close>

type_synonym GetHashFunc = "uint64 \<Rightarrow> EthAddress"

record BlockContext =
  CanTransfer :: CanTransferFunc
  Transfer :: TransferFunc
  GetHash :: GetHashFunc
  Coinbase :: EthAddress
  GasLimit :: uint64
  BlockNumber :: "int option"
  Time :: uint64
  Difficulty :: "int option"
  BaseFee :: "int option"
  Random :: "EthHash option"

section \<open>BlockOverrides.Apply\<close>

text \<open>
  \<^verbatim>\<open>Apply\<close> writes through the pointer \<^verbatim>\<open>blockCtx\<close>. The model takes the pointer
  (\<open>None\<close> for \<^verbatim>\<open>nil\<close>) and returns what it points to after the call. A write through a
  \<^verbatim>\<open>nil\<close> pointer is Go's run-time panic, the only way the function can fail.
\<close>

datatype panic = NilPointerDereference

definition andThen :: "panic + 'a \<Rightarrow> ('a \<Rightarrow> panic + 'b) \<Rightarrow> panic + 'b" where
  "andThen r f = (case r of Inl e \<Rightarrow> Inl e | Inr x \<Rightarrow> f x)"

definition assign ::
  "BlockContext option \<Rightarrow> (BlockContext \<Rightarrow> BlockContext) \<Rightarrow> panic + BlockContext option" where
  "assign blockCtx upd =
     (case blockCtx of
        None \<Rightarrow> Inl NilPointerDereference
      | Some c \<Rightarrow> Inr (Some (upd c)))"

text \<open>\<^verbatim>\<open>new(big.Int).SetUint64(x)\<close>: the big integer whose value is \<open>x\<close>.\<close>

definition SetUint64 :: "uint64 \<Rightarrow> int" where
  "SetUint64 x = uint x"

text \<open>The conversion \<^verbatim>\<open>uint64(v)\<close> of an \<^verbatim>\<open>EthUint64\<close>.\<close>

definition uint64 :: "EthUint64 \<Rightarrow> uint64" where
  "uint64 v = ucast v"

definition Apply ::
  "BlockOverrides option \<Rightarrow> BlockContext option \<Rightarrow> panic + BlockContext option" where
  "Apply diff blockCtx =
     (case diff of
        None \<Rightarrow> Inr blockCtx
      | Some d \<Rightarrow>
          andThen (case Number d of
                     None \<Rightarrow> Inr blockCtx
                   | Some n \<Rightarrow> assign blockCtx (\<lambda>c. c\<lparr>BlockNumber := Int' n\<rparr>))
          (\<lambda>blockCtx.
          andThen (case BlockOverrides.Difficulty d of
                     None \<Rightarrow> Inr blockCtx
                   | Some n \<Rightarrow> assign blockCtx (\<lambda>c. c\<lparr>Difficulty := Int' n\<rparr>))
          (\<lambda>blockCtx.
          andThen (case BlockOverrides.Time d of
                     None \<Rightarrow> Inr blockCtx
                   | Some t \<Rightarrow> assign blockCtx (\<lambda>c. c\<lparr>Time := uint64 t\<rparr>))
          (\<lambda>blockCtx.
          andThen (case BlockOverrides.GasLimit d of
                     None \<Rightarrow> Inr blockCtx
                   | Some g \<Rightarrow> assign blockCtx (\<lambda>c. c\<lparr>GasLimit := uint64 g\<rparr>))
          (\<lambda>blockCtx.
          andThen (case BlockOverrides.Coinbase d of
                     None \<Rightarrow> Inr blockCtx
                   | Some a \<Rightarrow> assign blockCtx (\<lambda>c. c\<lparr>Coinbase := a\<rparr>))
          (\<lambda>blockCtx.
          andThen (case BlockOverrides.Random d of
                     None \<Rightarrow> Inr blockCtx
                   | Some h \<Rightarrow> assign blockCtx (\<lambda>c. c\<lparr>Random := Some h\<rparr>))
          (\<lambda>blockCtx.
          (case BlockOverrides.BaseFee d of
             None \<Rightarrow> Inr blockCtx
           | Some f \<Rightarrow> assign blockCtx (\<lambda>c. c\<lparr>BaseFee := Some (SetUint64 (uint64 f))\<rparr>)))))))))"

text \<open>
  The context that results from a non-nil override on a non-nil context, field by
  field: the override's value where the override has one, the base's otherwise.
\<close>

definition overridden :: "BlockOverrides \<Rightarrow> BlockContext \<Rightarrow> BlockContext" where
  "overridden d c =
     \<lparr>CanTransfer = CanTransfer c,
      Transfer = Transfer c,
      GetHash = GetHash c,
      Coinbase = (case BlockOverrides.Coinbase d of None \<Rightarrow> Coinbase c | Some a \<Rightarrow> a),
      GasLimit = (case BlockOverrides.GasLimit d of None \<Rightarrow> GasLimit c | Some g \<Rightarrow> g),
      BlockNumber = (case Number d of None \<Rightarrow> BlockNumber c | Some n \<Rightarrow> Int' n),
      Time = (case BlockOverrides.Time d of None \<Rightarrow> Time c | Some t \<Rightarrow> t),
      Difficulty = (case BlockOverrides.Difficulty d of None \<Rightarrow> Difficulty c | Some n \<Rightarrow> Int' n),
      BaseFee = (case BlockOverrides.BaseFee d of None \<Rightarrow> BaseFee c | Some f \<Rightarrow> Some (uint f)),
      Random = (case BlockOverrides.Random d of None \<Rightarrow> Random c | Some h \<Rightarrow> Some h)\<rparr>"

text \<open>Two overrides that set no field in common.\<close>

definition disjointOverrides :: "BlockOverrides \<Rightarrow> BlockOverrides \<Rightarrow> bool" where
  "disjointOverrides A B =
     ((Number A = None \<or> Number B = None) \<and>
      (BlockOverrides.Difficulty A = None \<or> BlockOverrides.Difficulty B = None) \<and>
      (BlockOverrides.Time A = None \<or> BlockOverrides.Time B = None) \<and>
      (BlockOverrides.GasLimit A = None \<or> BlockOverrides.GasLimit B = None) \<and>
      (BlockOverrides.Coinbase A = None \<or> BlockOverrides.Coinbase B = None) \<and>
      (BlockOverrides.Random A = None \<or> BlockOverrides.Random B = None) \<and>
      (BlockOverrides.BaseFee A = None \<or> BlockOverrides.BaseFee B = None))"

section \<open>The account state overrider\<close>

text \<open>
  \<^verbatim>\<open>tracing.go\<close> declares \<^verbatim>\<open>OverrideAccount\<close> and \<^verbatim>\<open>StateOverride\<close> and has no function
  that applies them to a state. The definitions of this section are the account state
  overrider as the spec describes it (its section 4.2); they are generic in the type
  \<open>'k\<close> of the keys that name accounts.
\<close>

text \<open>
  Modelled from the spec: the error of its section 7, "\<^verbatim>\<open>ConflictingStateOverride(address)\<close>:
  both full-state and diff-state given for one account". The function that raises it is
  missing from the file.
\<close>

datatype 'k error = ConflictingStateOverride 'k

text \<open>
  Modelled from the spec: an account of the base state, with the four things an override
  can replace (nonce, code, balance, storage slots). The state type is missing from the
  file.
\<close>

record Account =
  nonce :: uint64
  code :: EthBytes
  balance :: EthBigInt
  storage :: "EthHash \<rightharpoonup> EthHash"

text \<open>
  Modelled from the spec: "any slot not listed reads as the zero value". Reading a slot
  is missing from the file.
\<close>

definition zeroHash :: EthHash where
  "zeroHash = EthHash 0"

definition readSlot :: "Account \<Rightarrow> EthHash \<Rightarrow> EthHash" where
  "readSlot acc k = (case storage acc k of None \<Rightarrow> zeroHash | Some v \<Rightarrow> v)"

text \<open>
  Modelled from the spec: the balance of an account whose balance was "explicitly
  cleared": zero.
\<close>

definition zeroBalance :: EthBigInt where
  "zeroBalance = \<lparr>Int' = Some 0\<rparr>"

text \<open>
  Modelled from the spec, step 2: "Nonce: if present, replaces the account's nonce."
\<close>

definition overrideNonce :: "OverrideAccount \<Rightarrow> Account \<Rightarrow> Account" where
  "overrideNonce ov acc =
     (case Nonce ov of None \<Rightarrow> acc | Some n \<Rightarrow> acc\<lparr>nonce := uint64 n\<rparr>)"

text \<open>
  Modelled from the spec, step 3: "Code: if present, replaces the account's code; an
  empty-but-present value means clear the code".
\<close>

definition overrideCode :: "OverrideAccount \<Rightarrow> Account \<Rightarrow> Account" where
  "overrideCode ov acc =
     (case Code ov of None \<Rightarrow> acc | Some c \<Rightarrow> acc\<lparr>code := c\<rparr>)"

text \<open>
  Modelled from the spec, step 4: "outer absence means untouched; outer presence with
  inner absence means explicitly clear/zero the balance; outer and inner presence means
  replace with this value". The field is \<^verbatim>\<open>**EthBigInt\<close>: a pointer to a pointer.
\<close>

definition overrideBalance :: "OverrideAccount \<Rightarrow> Account \<Rightarrow> Account" where
  "overrideBalance ov acc =
     (case Balance ov of
        None \<Rightarrow> acc
      | Some None \<Rightarrow> acc\<lparr>balance := zeroBalance\<rparr>
      | Some (Some v) \<Rightarrow> acc\<lparr>balance := v\<rparr>)"

text \<open>
  Modelled from the spec, step 5: "if State is present, the account's entire storage is
  replaced by the given slot map. If StateDiff is present instead, each listed slot is
  individually overwritten in the existing storage; slots not listed retain their
  original value."
\<close>

definition overrideStorage :: "OverrideAccount \<Rightarrow> Account \<Rightarrow> Account" where
  "overrideStorage ov acc =
     (case State ov of
        Some m \<Rightarrow> acc\<lparr>storage := m\<rparr>
      | None \<Rightarrow>
          (case StateDiff ov of
             Some m \<Rightarrow> acc\<lparr>storage := storage acc ++ m\<rparr>
           | None \<Rightarrow> acc))"

text \<open>
  Modelled from the spec: the merge of one account's override onto the base account, "in
  this order": validation (step 1: "if both State and StateDiff are present for the
  account, fail with ConflictingStateOverride naming the address", checked "before any
  mutation is applied"), then nonce, code, balance, storage.
\<close>

definition applyAccount :: "'k \<Rightarrow> OverrideAccount \<Rightarrow> Account \<Rightarrow> 'k error + Account" where
  "applyAccount addr ov acc =
     (if State ov \<noteq> None \<and> StateDiff ov \<noteq> None
      then Inl (ConflictingStateOverride addr)
      else Inr (overrideStorage ov (overrideBalance ov (overrideCode ov (overrideNonce ov acc)))))"

text \<open>
  Modelled from the spec: "\<^verbatim>\<open>Apply(overrides StateOverride, baseState) -> effectiveState | Error\<close>",
  "for each address present in overrides" the merge above; the first failure is the
  result, and then there is no effective state. The base state answers for every key;
  the effective state is a new value, the base state is not written.
\<close>

fun ApplyState ::
  "('k \<times> OverrideAccount) list \<Rightarrow> ('k \<Rightarrow> Account) \<Rightarrow> 'k error + ('k \<Rightarrow> Account)" where
  "ApplyState [] st = Inr st"
| "ApplyState ((addr, ov) # rest) st =
     (case applyAccount addr ov (st addr) of
        Inl e \<Rightarrow> Inl e
      | Inr acc \<Rightarrow> ApplyState rest (st(addr := acc)))"

text \<open>
  Modelled from the spec: the state the overrider works on, "a transient per-call
  overlay" over the backing store, read by "an overlay-over-base lookup: check overlay
  first, fall back to base". The state type is missing from the file.
\<close>

record 'k StateView =
  backing :: "'k \<Rightarrow> Account"
  overlay :: "'k \<rightharpoonup> Account"

definition readAccount :: "'k StateView \<Rightarrow> 'k \<Rightarrow> Account" where
  "readAccount v a = (case overlay v a of Some acc \<Rightarrow> acc | None \<Rightarrow> backing v a)"

text \<open>
  Modelled from the spec: the validation of step 1, "checked before any mutation is
  applied": the first account, in the order in which the entries are visited, that has
  both \<open>State\<close> and \<open>StateDiff\<close>.
\<close>

fun firstConflict :: "('k \<times> OverrideAccount) list \<Rightarrow> 'k option" where
  "firstConflict [] = None"
| "firstConflict ((addr, ov) # rest) =
     (if State ov \<noteq> None \<and> StateDiff ov \<noteq> None then Some addr else firstConflict rest)"

text \<open>
  Modelled from the spec: steps 2 to 5 for each account in turn, every merged account
  written to the overlay and none to the backing store.
\<close>

fun mergeAll :: "('k \<times> OverrideAccount) list \<Rightarrow> 'k StateView \<Rightarrow> 'k StateView" where
  "mergeAll [] v = v"
| "mergeAll ((addr, ov) # rest) v =
     mergeAll rest
       (v\<lparr>overlay := (overlay v)(addr \<mapsto>
            overrideStorage ov (overrideBalance ov (overrideCode ov
              (overrideNonce ov (readAccount v addr)))))\<rparr>)"

text \<open>
  Modelled from the spec: the overrider as a step on the state view. It returns the error
  it raised, if any, and the view as the call leaves it, so that a write made before a
  failure would show. A conflicting override is "rejected before any merge occurs".
\<close>

definition ApplyStateOverlay ::
  "('k \<times> OverrideAccount) list \<Rightarrow> 'k StateView \<Rightarrow> 'k error option \<times> 'k StateView" where
  "ApplyStateOverlay so v =
     (case firstConflict so of
        Some addr \<Rightarrow> (Some (ConflictingStateOverride addr), v)
      | None \<Rightarrow> (None, mergeAll so v))"

section \<open>Example values\<close>

definition baseContext :: BlockContext where
  "baseContext =
     \<lparr>CanTransfer = (\<lambda>db a v. True),
      Transfer = (\<lambda>db a b v. db),
      GetHash = (\<lambda>n. EthAddress 0),
      Coinbase = EthAddress 1,
      GasLimit = 30000000,
      BlockNumber = Some 100,
      Time = 1700000000,
      Difficulty = Some 0,
      BaseFee = Some 7,
      Random = None\<rparr>"

definition noOverrides :: BlockOverrides where
  "noOverrides =
     \<lparr>Number = None, Difficulty = None, Time = None, GasLimit = None, Coinbase = None,
      Random = None, BaseFee = None\<rparr>"

definition numberOverride :: BlockOverrides where
  "numberOverride = noOverrides\<lparr>Number := Some \<lparr>Int' = Some 5\<rparr>\<rparr>"

definition timeOverride :: BlockOverrides where
  "timeOverride = noOverrides\<lparr>BlockOverrides.Time := Some 12\<rparr>"

definition maxOverrides :: BlockOverrides where
  "maxOverrides =
     noOverrides\<lparr>BlockOverrides.Time := Some 18446744073709551615,
                 BlockOverrides.GasLimit := Some 18446744073709551615,
                 BlockOverrides.BaseFee := Some 18446744073709551615\<rparr>"

definition noAccountOverride :: OverrideAccount where
  "noAccountOverride =
     \<lparr>Nonce = None, Code = None, Balance = None, State = None, StateDiff = None\<rparr>"

definition baseAccount :: Account where
  "baseAccount =
     \<lparr>nonce = 3, code = [96, 0], balance = \<lparr>Int' = Some 5\<rparr>,
      storage = [EthHash 1 \<mapsto> EthHash 10, EthHash 2 \<mapsto> EthHash 20]\<rparr>"

definition baseState :: "EthHash \<Rightarrow> Account" where
  "baseState = (\<lambda>k. baseAccount)"

definition nonceOverride :: OverrideAccount where
  "nonceOverride = noAccountOverride\<lparr>Nonce := Some 9\<rparr>"

definition stateOverride :: OverrideAccount where
  "stateOverride = noAccountOverride\<lparr>State := Some [EthHash 1 \<mapsto> EthHash 11]\<rparr>"

definition stateDiffOverride :: OverrideAccount where
  "stateDiffOverride = noAccountOverride\<lparr>StateDiff := Some [EthHash 1 \<mapsto> EthHash 11]\<rparr>"

definition conflictingOverride :: OverrideAccount where
  "conflictingOverride =
     noAccountOverride\<lparr>Nonce := Some 9, Balance := Some None,
                        State := Some [EthHash 1 \<mapsto> EthHash 11],
                        StateDiff := Some [EthHash 2 \<mapsto> EthHash 22]\<rparr>"

definition conflictingStateOverride :: StateOverride where
  "conflictingStateOverride = [(EthHash 7, nonceOverride), (EthHash 8, conflictingOverride)]"

definition twoConflicts :: StateOverride where
  "twoConflicts = [(EthHash 7, conflictingOverride), (EthHash 8, conflictingOverride)]"

definition baseView :: "EthHash StateView" where
  "baseView = \<lparr>backing = baseState, overlay = Map.empty\<rparr>"

definition clearBalance :: OverrideAccount where
  "clearBalance = noAccountOverride\<lparr>Balance := Some None\<rparr>"

definition setBalance :: OverrideAccount where
  "setBalance = noAccountOverride\<lparr>Balance := Some (Some \<lparr>Int' = Some 7\<rparr>)\<rparr>"


section \<open>Properties of BlockOverrides.Apply\<close>

lemma Apply_Some_Some: "Apply (Some d) (Some c) = Inr (Some (overridden d c))"
  by (cases c)
     (simp add: Apply_def andThen_def assign_def overridden_def uint64_def SetUint64_def
           split: option.splits)

text \<open>A field written through a nil context pointer: the panic.\<close>

lemma Apply_nil_context_panics:
  "Apply (Some numberOverride) None = Inl NilPointerDereference"
  by (simp add: Apply_def andThen_def assign_def numberOverride_def noOverrides_def)

text \<open>
  C1. For a context and a non-nil override, \<open>Apply\<close> returns the context in which each of
  the seven overridable fields holds the override's value when the override has one
  (\<open>Number\<close> and \<open>Difficulty\<close> the \<^verbatim>\<open>Int\<close> of the override, \<open>BaseFee\<close> the big integer of
  the 64-bit value) and the base's value otherwise; \<open>CanTransfer\<close>, \<open>Transfer\<close> and
  \<open>GetHash\<close> are the base's whatever the override holds.
\<close>

theorem Apply_replaces_present_fields:
  "Apply (Some d) (Some ctx) =
     Inr (Some
       \<lparr>CanTransfer = CanTransfer ctx,
        Transfer = Transfer ctx,
        GetHash = GetHash ctx,
        Coinbase = (case BlockOverrides.Coinbase d of None \<Rightarrow> Coinbase ctx | Some a \<Rightarrow> a),
        GasLimit = (case BlockOverrides.GasLimit d of None \<Rightarrow> GasLimit ctx | Some g \<Rightarrow> g),
        BlockNumber = (case Number d of None \<Rightarrow> BlockNumber ctx | Some n \<Rightarrow> Int' n),
        Time = (case BlockOverrides.Time d of None \<Rightarrow> Time ctx | Some t \<Rightarrow> t),
        Difficulty =
          (case BlockOverrides.Difficulty d of None \<Rightarrow> Difficulty ctx | Some n \<Rightarrow> Int' n),
        BaseFee =
          (case BlockOverrides.BaseFee d of None \<Rightarrow> BaseFee ctx | Some f \<Rightarrow> Some (uint f)),
        Random = (case BlockOverrides.Random d of None \<Rightarrow> Random ctx | Some h \<Rightarrow> Some h)\<rparr>)"
  by (simp add: Apply_Some_Some overridden_def)

text \<open>
  C2. A nil override returns at once: the context is the base context, nothing is
  written and nothing fails (also when the context pointer is nil).
\<close>

theorem Apply_nil_is_noop: "Apply None blockCtx = Inr blockCtx"
  by (simp add: Apply_def)

text \<open>
  C3. \<open>Apply\<close> is idempotent: the context left by applying a non-nil override is left
  as it is, in every field, by applying the same override again.
\<close>

theorem Apply_idempotent:
  "\<exists>c'. Apply (Some d) (Some ctx) = Inr (Some c') \<and> Apply (Some d) (Some c') = Inr (Some c')"
proof -
  have "overridden d (overridden d ctx) = overridden d ctx"
    by (simp add: overridden_def split: option.splits)
  then show ?thesis
    by (simp add: Apply_Some_Some)
qed

text \<open>
  C9. The conversions of \<open>Apply\<close> are exact. For 64-bit unsigned override values: the
  resulting \<open>Time\<close> and \<open>GasLimit\<close> have the override's numeric value, and the resulting
  \<open>BaseFee\<close> is the big integer with that same value, which lies in the 64-bit range
  and converts back to the override value.
\<close>

theorem Apply_conversions_exact:
  "\<exists>c'. Apply (Some d) (Some ctx) = Inr (Some c') \<and>
     (\<forall>v. BlockOverrides.Time d = Some v \<longrightarrow> uint (Time c') = uint v) \<and>
     (\<forall>v. BlockOverrides.GasLimit d = Some v \<longrightarrow> uint (GasLimit c') = uint v) \<and>
     (\<forall>v. BlockOverrides.BaseFee d = Some v \<longrightarrow>
        (\<exists>n. BaseFee c' = Some n \<and> n = uint v \<and> 0 \<le> n \<and> n < 2 ^ 64 \<and> word_of_int n = v))"
proof -
  have "uint v < 2 ^ 64" for v :: "64 word"
    using uint_bounded [of v] by simp
  then show ?thesis
    by (simp add: Apply_Some_Some overridden_def)
qed

theorem Apply_conversions_exact_witness:
  "\<exists>c'. Apply (Some maxOverrides) (Some baseContext) = Inr (Some c') \<and>
     uint (Time c') = 18446744073709551615 \<and>
     uint (GasLimit c') = 18446744073709551615 \<and>
     BaseFee c' = Some 18446744073709551615"
proof -
  have t: "BlockOverrides.Time maxOverrides = Some 18446744073709551615"
    and g: "BlockOverrides.GasLimit maxOverrides = Some 18446744073709551615"
    and f: "BlockOverrides.BaseFee maxOverrides = Some 18446744073709551615"
    by (simp_all add: maxOverrides_def noOverrides_def)
  from Apply_conversions_exact [of maxOverrides baseContext] obtain c' where
    r: "Apply (Some maxOverrides) (Some baseContext) = Inr (Some c')" and
    t': "\<forall>v. BlockOverrides.Time maxOverrides = Some v \<longrightarrow> uint (Time c') = uint v" and
    g': "\<forall>v. BlockOverrides.GasLimit maxOverrides = Some v \<longrightarrow> uint (GasLimit c') = uint v" and
    f': "\<forall>v. BlockOverrides.BaseFee maxOverrides = Some v \<longrightarrow>
           (\<exists>n. BaseFee c' = Some n \<and> n = uint v \<and> 0 \<le> n \<and> n < 2 ^ 64 \<and> word_of_int n = v)"
    by blast
  from t t' have "uint (Time c') = 18446744073709551615" by simp
  moreover from g g' have "uint (GasLimit c') = 18446744073709551615" by simp
  moreover from f f' have "BaseFee c' = Some 18446744073709551615" by simp
  ultimately show ?thesis using r by blast
qed

text \<open>
  C10. Applying \<open>A\<close> and then \<open>B\<close> leaves, in each overridable field, \<open>B\<close>'s value if \<open>B\<close>
  has one, else \<open>A\<close>'s value if \<open>A\<close> has one, else the base's; the hooks are the base's.
  When \<open>A\<close> and \<open>B\<close> set no field in common, applying \<open>A\<close> then \<open>B\<close> and applying \<open>B\<close> then
  \<open>A\<close> leave the same context.
\<close>

theorem Apply_last_writer_wins:
  "andThen (Apply (Some A) (Some ctx)) (Apply (Some B)) =
     Inr (Some
       \<lparr>CanTransfer = CanTransfer ctx,
        Transfer = Transfer ctx,
        GetHash = GetHash ctx,
        Coinbase =
          (case BlockOverrides.Coinbase B of
             Some a \<Rightarrow> a
           | None \<Rightarrow> (case BlockOverrides.Coinbase A of Some a \<Rightarrow> a | None \<Rightarrow> Coinbase ctx)),
        GasLimit =
          (case BlockOverrides.GasLimit B of
             Some g \<Rightarrow> g
           | None \<Rightarrow> (case BlockOverrides.GasLimit A of Some g \<Rightarrow> g | None \<Rightarrow> GasLimit ctx)),
        BlockNumber =
          (case Number B of
             Some n \<Rightarrow> Int' n
           | None \<Rightarrow> (case Number A of Some n \<Rightarrow> Int' n | None \<Rightarrow> BlockNumber ctx)),
        Time =
          (case BlockOverrides.Time B of
             Some t \<Rightarrow> t
           | None \<Rightarrow> (case BlockOverrides.Time A of Some t \<Rightarrow> t | None \<Rightarrow> Time ctx)),
        Difficulty =
          (case BlockOverrides.Difficulty B of
             Some n \<Rightarrow> Int' n
           | None \<Rightarrow>
               (case BlockOverrides.Difficulty A of Some n \<Rightarrow> Int' n | None \<Rightarrow> Difficulty ctx)),
        BaseFee =
          (case BlockOverrides.BaseFee B of
             Some f \<Rightarrow> Some (uint f)
           | None \<Rightarrow>
               (case BlockOverrides.BaseFee A of Some f \<Rightarrow> Some (uint f) | None \<Rightarrow> BaseFee ctx)),
        Random =
          (case BlockOverrides.Random B of
             Some h \<Rightarrow> Some h
           | None \<Rightarrow> (case BlockOverrides.Random A of Some h \<Rightarrow> Some h | None \<Rightarrow> Random ctx))\<rparr>)
   \<and> (disjointOverrides A B \<longrightarrow>
        andThen (Apply (Some A) (Some ctx)) (Apply (Some B)) =
        andThen (Apply (Some B) (Some ctx)) (Apply (Some A)))"
proof -
  have first: "andThen (Apply (Some X) (Some ctx)) (Apply (Some Y)) =
      Inr (Some (overridden Y (overridden X ctx)))" for X Y
    by (simp add: Apply_Some_Some andThen_def)
  have fields: "overridden B (overridden A ctx) = overridden A (overridden B ctx)"
    if "disjointOverrides A B"
  proof -
    have swap: "(case b of None \<Rightarrow> (case a of None \<Rightarrow> x | Some v \<Rightarrow> g v) | Some v \<Rightarrow> g v) =
        (case a of None \<Rightarrow> (case b of None \<Rightarrow> x | Some v \<Rightarrow> g v) | Some v \<Rightarrow> g v)"
      if "a = None \<or> b = None" for a b :: "'v option" and x :: 'w and g
      using that by (cases a; cases b) simp_all
    from that have
      n: "Number A = None \<or> Number B = None" and
      d: "BlockOverrides.Difficulty A = None \<or> BlockOverrides.Difficulty B = None" and
      t: "BlockOverrides.Time A = None \<or> BlockOverrides.Time B = None" and
      g: "BlockOverrides.GasLimit A = None \<or> BlockOverrides.GasLimit B = None" and
      c: "BlockOverrides.Coinbase A = None \<or> BlockOverrides.Coinbase B = None" and
      r: "BlockOverrides.Random A = None \<or> BlockOverrides.Random B = None" and
      f: "BlockOverrides.BaseFee A = None \<or> BlockOverrides.BaseFee B = None"
      by (simp_all add: disjointOverrides_def)
    show ?thesis
      by (simp add: overridden_def swap [OF n] swap [OF d] swap [OF t] swap [OF g]
            swap [OF c] swap [OF r] swap [OF f] cong: option.case_cong)
  qed
  have "overridden B (overridden A ctx) =
       \<lparr>CanTransfer = CanTransfer ctx,
        Transfer = Transfer ctx,
        GetHash = GetHash ctx,
        Coinbase =
          (case BlockOverrides.Coinbase B of
             Some a \<Rightarrow> a
           | None \<Rightarrow> (case BlockOverrides.Coinbase A of Some a \<Rightarrow> a | None \<Rightarrow> Coinbase ctx)),
        GasLimit =
          (case BlockOverrides.GasLimit B of
             Some g \<Rightarrow> g
           | None \<Rightarrow> (case BlockOverrides.GasLimit A of Some g \<Rightarrow> g | None \<Rightarrow> GasLimit ctx)),
        BlockNumber =
          (case Number B of
             Some n \<Rightarrow> Int' n
           | None \<Rightarrow> (case Number A of Some n \<Rightarrow> Int' n | None \<Rightarrow> BlockNumber ctx)),
        Time =
          (case BlockOverrides.Time B of
             Some t \<Rightarrow> t
           | None \<Rightarrow> (case BlockOverrides.Time A of Some t \<Rightarrow> t | None \<Rightarrow> Time ctx)),
        Difficulty =
          (case BlockOverrides.Difficulty B of
             Some n \<Rightarrow> Int' n
           | None \<Rightarrow>
               (case BlockOverrides.Difficulty A of Some n \<Rightarrow> Int' n | None \<Rightarrow> Difficulty ctx)),
        BaseFee =
          (case BlockOverrides.BaseFee B of
             Some f \<Rightarrow> Some (uint f)
           | None \<Rightarrow>
               (case BlockOverrides.BaseFee A of Some f \<Rightarrow> Some (uint f) | None \<Rightarrow> BaseFee ctx)),
        Random =
          (case BlockOverrides.Random B of
             Some h \<Rightarrow> Some h
           | None \<Rightarrow> (case BlockOverrides.Random A of Some h \<Rightarrow> Some h | None \<Rightarrow> Random ctx))\<rparr>"
    by (simp add: overridden_def cong: option.case_cong)
  with fields show ?thesis
    by (simp only: first) simp
qed

theorem Apply_last_writer_wins_witness:
  "disjointOverrides numberOverride timeOverride \<and>
   andThen (Apply (Some numberOverride) (Some baseContext)) (Apply (Some timeOverride)) =
   andThen (Apply (Some timeOverride) (Some baseContext)) (Apply (Some numberOverride))"
proof -
  have d: "disjointOverrides numberOverride timeOverride"
    by (simp add: disjointOverrides_def numberOverride_def timeOverride_def noOverrides_def)
  with Apply_last_writer_wins [of numberOverride baseContext timeOverride] show ?thesis
    by blast
qed

text \<open>
  C7. The hook \<open>GetHash\<close> of a block context is declared to return an \<^verbatim>\<open>EthAddress\<close>:
  at every block number its result is an address value, not an \<^verbatim>\<open>EthHash\<close>.
\<close>

theorem GetHash_yields_EthAddress: "\<exists>a. GetHash ctx n = EthAddress a"
  by (cases "GetHash ctx n") blast

section \<open>Properties of the account state overrider\<close>

text \<open>
  The merge of one account either fails at the validation or is the four replacements
  in order. Applying a state override fails exactly when one of its accounts has both
  \<open>State\<close> and \<open>StateDiff\<close>; when it succeeds, an account that is not named is the
  base's, a named account is the merge of its override onto the base account, and the
  order of the entries does not matter.
\<close>

lemma applyAccount_conflict:
  "State ov \<noteq> None \<Longrightarrow> StateDiff ov \<noteq> None \<Longrightarrow>
   applyAccount a ov acc = Inl (ConflictingStateOverride a)"
  by (simp add: applyAccount_def)

lemma applyAccount_valid:
  "State ov = None \<or> StateDiff ov = None \<Longrightarrow>
   applyAccount a ov acc =
     Inr (overrideStorage ov (overrideBalance ov (overrideCode ov (overrideNonce ov acc))))"
  by (auto simp add: applyAccount_def)

lemma ApplyState_conflict:
  "(a, ov) \<in> set so \<Longrightarrow> State ov \<noteq> None \<Longrightarrow> StateDiff ov \<noteq> None \<Longrightarrow>
   \<exists>a' ov'. ApplyState so base = Inl (ConflictingStateOverride a') \<and> (a', ov') \<in> set so \<and>
      State ov' \<noteq> None \<and> StateDiff ov' \<noteq> None"
proof (induction so arbitrary: base)
  case Nil
  then show ?case by simp
next
  case (Cons x so)
  obtain b y where x: "x = (b, y)" by (cases x)
  show ?case
  proof (cases "State y \<noteq> None \<and> StateDiff y \<noteq> None")
    case True
    then have "ApplyState (x # so) base = Inl (ConflictingStateOverride b)"
      by (simp add: x applyAccount_conflict)
    with True x show ?thesis by auto
  next
    case False
    with Cons.prems x have mem: "(a, ov) \<in> set so" by auto
    from False have v: "State y = None \<or> StateDiff y = None" by blast
    from Cons.IH [OF mem Cons.prems(2) Cons.prems(3)] obtain a' ov' where
      "ApplyState so (base(b := overrideStorage y (overrideBalance y (overrideCode y (overrideNonce y (base b)))))) = Inl (ConflictingStateOverride a')"
      "(a', ov') \<in> set so" "State ov' \<noteq> None" "StateDiff ov' \<noteq> None"
      by blast
    then show ?thesis
      by (auto simp add: x applyAccount_valid [OF v])
  qed
qed

lemma ApplyState_unnamed:
  "ApplyState so base = Inr st \<Longrightarrow> a \<notin> set (keys so) \<Longrightarrow> st a = base a"
proof (induction so arbitrary: base)
  case Nil
  then show ?case by simp
next
  case (Cons x so)
  obtain b y where x: "x = (b, y)" by (cases x)
  from Cons.prems(2) x have ne: "a \<noteq> b" and nin: "a \<notin> set (keys so)"
    by (simp_all add: keys_def)
  from Cons.prems(1) x obtain acc where
    "applyAccount b y (base b) = Inr acc" and r: "ApplyState so (base(b := acc)) = Inr st"
    by (auto split: sum.splits)
  from Cons.IH [OF r nin] ne show ?case by simp
qed

lemma ApplyState_failure:
  "ApplyState so base = Inl e \<Longrightarrow>
   \<exists>a ov. e = ConflictingStateOverride a \<and> (a, ov) \<in> set so \<and>
      State ov \<noteq> None \<and> StateDiff ov \<noteq> None"
proof (induction so arbitrary: base)
  case Nil
  then show ?case by simp
next
  case (Cons x so)
  obtain b y where x: "x = (b, y)" by (cases x)
  show ?case
  proof (cases "State y \<noteq> None \<and> StateDiff y \<noteq> None")
    case True
    with Cons.prems x show ?thesis
      by (auto simp add: applyAccount_conflict)
  next
    case False
    then have v: "State y = None \<or> StateDiff y = None" by blast
    from Cons.prems have "ApplyState so
        (base(b := overrideStorage y (overrideBalance y (overrideCode y (overrideNonce y (base b))))))
        = Inl e"
      by (simp add: x applyAccount_valid [OF v])
    from Cons.IH [OF this] show ?thesis by auto
  qed
qed

lemma ApplyState_named:
  "wellformed so \<Longrightarrow> ApplyState so base = Inr st \<Longrightarrow> (a, ov) \<in> set so \<Longrightarrow>
   applyAccount a ov (base a) = Inr (st a)"
proof (induction so arbitrary: base)
  case Nil
  then show ?case by simp
next
  case (Cons x so)
  obtain b y where x: "x = (b, y)" by (cases x)
  from Cons.prems(1) x have nin: "b \<notin> set (keys so)" and wf: "wellformed so"
    by (simp_all add: wellformed_def keys_def)
  from Cons.prems(2) x obtain acc where
    h: "applyAccount b y (base b) = Inr acc" and r: "ApplyState so (base(b := acc)) = Inr st"
    by (auto split: sum.splits)
  show ?case
  proof (cases "(a, ov) \<in> set so")
    case True
    with nin have "a \<noteq> b" by (force simp add: keys_def)
    with Cons.IH [OF wf r True] show ?thesis by simp
  next
    case False
    with Cons.prems(3) x have "a = b" "ov = y" by auto
    with h ApplyState_unnamed [OF r nin] show ?thesis by simp
  qed
qed

lemma ApplyState_order_irrelevant:
  assumes "wellformed so" and "wellformed so'" and "set so' = set so"
    and "ApplyState so base = Inr st"
  shows "ApplyState so' base = Inr st"
proof (cases "ApplyState so' base")
  case (Inl e)
  from ApplyState_failure [OF Inl] assms(3) obtain a ov where
    "(a, ov) \<in> set so" "State ov \<noteq> None" "StateDiff ov \<noteq> None"
    by auto
  from ApplyState_conflict [OF this, of base] assms(4) show ?thesis by auto
next
  case (Inr st')
  have "st' a = st a" for a
  proof (cases "a \<in> set (keys so)")
    case True
    then obtain ov where m: "(a, ov) \<in> set so" by (auto simp add: keys_def)
    with assms(3) have m': "(a, ov) \<in> set so'" by simp
    from ApplyState_named [OF assms(1,4) m] ApplyState_named [OF assms(2) Inr m']
    show ?thesis by simp
  next
    case False
    with assms(3) have "a \<notin> set (keys so')" by (simp add: keys_def)
    from ApplyState_unnamed [OF Inr this] ApplyState_unnamed [OF assms(4) False]
    show ?thesis by simp
  qed
  then have "st' = st" by (rule ext)
  with Inr show ?thesis by simp
qed

lemma overrides_keep_storage:
  "storage (overrideBalance ov (overrideCode ov (overrideNonce ov acc))) = storage acc"
  by (simp add: overrideBalance_def overrideCode_def overrideNonce_def split: option.splits)

lemma overrideStorage_keeps_balance:
  "balance (overrideStorage ov acc) = balance acc"
  by (simp add: overrideStorage_def split: option.splits)

lemma overrideBalance_balance:
  "balance (overrideBalance ov (overrideCode ov (overrideNonce ov acc))) =
     (case Balance ov of None \<Rightarrow> balance acc | Some None \<Rightarrow> zeroBalance | Some (Some v) \<Rightarrow> v)"
  by (simp add: overrideBalance_def overrideCode_def overrideNonce_def split: option.splits)

text \<open>
  The overrider as a step on the state view: what the validation finds, that the
  backing store is never written, and that the step and \<open>ApplyState\<close> agree.
\<close>

lemma firstConflict_None:
  "firstConflict so = None \<longleftrightarrow> (\<forall>(b, x) \<in> set so. State x = None \<or> StateDiff x = None)"
proof (induction so)
  case Nil
  then show ?case by simp
next
  case (Cons x so)
  obtain b y where x: "x = (b, y)" by (cases x)
  from Cons.IH show ?case
    by (cases "State y"; cases "StateDiff y") (simp_all add: x)
qed

lemma firstConflict_valid_head:
  "State y = None \<or> StateDiff y = None \<Longrightarrow> firstConflict ((b, y) # so) = firstConflict so"
  by auto

lemma firstConflict_conflicting_head:
  "State y \<noteq> None \<Longrightarrow> StateDiff y \<noteq> None \<Longrightarrow> firstConflict ((b, y) # so) = Some b"
  by simp

lemma firstConflict_Some:
  "firstConflict so = Some a \<Longrightarrow>
   \<exists>ov pre post. so = pre @ (a, ov) # post \<and> State ov \<noteq> None \<and> StateDiff ov \<noteq> None \<and>
      (\<forall>(b, x) \<in> set pre. State x = None \<or> StateDiff x = None)"
proof (induction so)
  case Nil
  then show ?case by simp
next
  case (Cons x so)
  obtain b y where x: "x = (b, y)" by (cases x)
  show ?case
  proof (cases "State y \<noteq> None \<and> StateDiff y \<noteq> None")
    case True
    with Cons.prems x have "a = b" by (simp add: firstConflict_conflicting_head)
    with True x have "x # so = [] @ (a, y) # so \<and> State y \<noteq> None \<and> StateDiff y \<noteq> None \<and>
        (\<forall>(b, x) \<in> set []. State x = None \<or> StateDiff x = None)"
      by simp
    then show ?thesis
      by (intro exI [of _ y] exI [of _ "[]"] exI [of _ so])
  next
    case False
    then have v: "State y = None \<or> StateDiff y = None" by blast
    from Cons.prems x have "firstConflict so = Some a"
      by (simp only: firstConflict_valid_head [OF v])
    from Cons.IH [OF this] obtain ov pre post where
      so: "so = pre @ (a, ov) # post" and c: "State ov \<noteq> None" "StateDiff ov \<noteq> None" and
      p: "\<forall>(b, x) \<in> set pre. State x = None \<or> StateDiff x = None"
      by blast
    from so x have "x # so = ((b, y) # pre) @ (a, ov) # post" by simp
    moreover from p v have
      "\<forall>(b, x) \<in> set ((b, y) # pre). State x = None \<or> StateDiff x = None"
      by simp
    ultimately have "x # so = ((b, y) # pre) @ (a, ov) # post \<and>
        State ov \<noteq> None \<and> StateDiff ov \<noteq> None \<and>
        (\<forall>(b, x) \<in> set ((b, y) # pre). State x = None \<or> StateDiff x = None)"
      using c by simp
    then show ?thesis
      by (intro exI [of _ ov] exI [of _ "(b, y) # pre"] exI [of _ post])
  qed
qed

lemma firstConflict_prefix:
  "\<forall>(b, x) \<in> set pre. State x = None \<or> StateDiff x = None \<Longrightarrow>
   State ov \<noteq> None \<Longrightarrow> StateDiff ov \<noteq> None \<Longrightarrow>
   firstConflict (pre @ (a, ov) # post) = Some a"
  by (induction pre) auto

lemma firstConflict_ApplyState:
  "firstConflict so = Some a \<Longrightarrow> ApplyState so st = Inl (ConflictingStateOverride a)"
proof (induction so arbitrary: st)
  case Nil
  then show ?case by simp
next
  case (Cons x so)
  obtain b y where x: "x = (b, y)" by (cases x)
  show ?case
  proof (cases "State y \<noteq> None \<and> StateDiff y \<noteq> None")
    case True
    with Cons.prems x show ?thesis
      by (simp add: applyAccount_conflict)
  next
    case False
    then have v: "State y = None \<or> StateDiff y = None" by blast
    from Cons.prems x have "firstConflict so = Some a"
      by (simp only: firstConflict_valid_head [OF v])
    from Cons.IH [OF this] show ?thesis
      by (simp add: x applyAccount_valid [OF v])
  qed
qed

lemma readAccount_overlay_update:
  "readAccount (v\<lparr>overlay := (overlay v)(b \<mapsto> acc)\<rparr>) = (readAccount v)(b := acc)"
  by (rule ext) (simp add: readAccount_def split: option.splits)

lemma mergeAll_ApplyState:
  "firstConflict so = None \<Longrightarrow>
   ApplyState so (readAccount v) = Inr (readAccount (mergeAll so v))"
proof (induction so arbitrary: v)
  case Nil
  then show ?case by simp
next
  case (Cons x so)
  obtain b y where x: "x = (b, y)" by (cases x)
  from Cons.prems x have v: "State y = None \<or> StateDiff y = None"
    and rest: "firstConflict so = None"
    by (auto split: if_splits)
  define m where
    "m = overrideStorage y (overrideBalance y (overrideCode y (overrideNonce y (readAccount v b))))"
  define v' where "v' = v\<lparr>overlay := (overlay v)(b \<mapsto> m)\<rparr>"
  have "ApplyState (x # so) (readAccount v) = ApplyState so ((readAccount v)(b := m))"
    by (simp add: x applyAccount_valid [OF v] m_def)
  also have "\<dots> = ApplyState so (readAccount v')"
    by (simp add: v'_def readAccount_overlay_update)
  also have "\<dots> = Inr (readAccount (mergeAll so v'))"
    by (rule Cons.IH [OF rest])
  also have "mergeAll so v' = mergeAll (x # so) v"
    by (simp add: x v'_def m_def)
  finally show ?case .
qed

lemma mergeAll_backing: "backing (mergeAll so v) = backing v"
  by (induction so arbitrary: v) auto

lemma ApplyStateOverlay_backing: "backing (snd (ApplyStateOverlay so v)) = backing v"
  by (simp add: ApplyStateOverlay_def mergeAll_backing split: option.splits)

lemma ApplyStateOverlay_agrees:
  "ApplyState so (readAccount v) =
     (case ApplyStateOverlay so v of
        (Some e, v') \<Rightarrow> Inl e
      | (None, v') \<Rightarrow> Inr (readAccount v'))"
  by (cases "firstConflict so")
     (simp_all add: ApplyStateOverlay_def mergeAll_ApplyState firstConflict_ApplyState)

text \<open>
  C4, as stated, fails where two accounts of one override have both \<open>State\<close> and
  \<open>StateDiff\<close>: the single error names one of them, so the other is an account with
  both fields that the error does not name. With accounts 7 and 8 both conflicting, the
  error names 7 when 7 is visited first and 8 when 8 is.
\<close>

theorem ApplyState_names_one_conflict_counterexample:
  "wellformed twoConflicts \<and>
   (EthHash 8, conflictingOverride) \<in> set twoConflicts \<and>
   State conflictingOverride \<noteq> None \<and> StateDiff conflictingOverride \<noteq> None \<and>
   fst (ApplyStateOverlay twoConflicts baseView) \<noteq> Some (ConflictingStateOverride (EthHash 8)) \<and>
   ApplyState twoConflicts baseState \<noteq> Inl (ConflictingStateOverride (EthHash 8)) \<and>
   (EthHash 7, conflictingOverride) \<in> set (rev twoConflicts) \<and>
   fst (ApplyStateOverlay (rev twoConflicts) baseView) \<noteq> Some (ConflictingStateOverride (EthHash 7)) \<and>
   ApplyState (rev twoConflicts) baseState \<noteq> Inl (ConflictingStateOverride (EthHash 7))"
  by (simp add: wellformed_def keys_def twoConflicts_def conflictingOverride_def
        noAccountOverride_def ApplyStateOverlay_def applyAccount_def)

text \<open>
  C4, amended. When an account of a state override has both \<open>State\<close> and \<open>StateDiff\<close>,
  applying the override fails with \<open>ConflictingStateOverride\<close> naming an account of the
  override that has both: the first such account in the order the entries are visited,
  hence the given account whenever no account visited before it has both, in particular
  when it is the only one. The failure comes before any merge: the state view the failed
  call leaves is the view it was given, overlay and backing store alike, so no nonce,
  code, balance or storage slot of any account has changed. \<open>ApplyState\<close> fails with the
  same error.
\<close>

theorem ApplyStateOverlay_rejects_conflict:
  assumes "(a, ov) \<in> set so" and "State ov \<noteq> None" and "StateDiff ov \<noteq> None"
  shows "\<exists>a' ov' pre post.
           ApplyStateOverlay so v = (Some (ConflictingStateOverride a'), v) \<and>
           so = pre @ (a', ov') # post \<and> State ov' \<noteq> None \<and> StateDiff ov' \<noteq> None \<and>
           (\<forall>(b, x) \<in> set pre. State x = None \<or> StateDiff x = None) \<and>
           (\<forall>p q. so = p @ (a, ov) # q \<and>
              (\<forall>(b, x) \<in> set p. State x = None \<or> StateDiff x = None) \<longrightarrow> a' = a) \<and>
           ((\<forall>(b, x) \<in> set so. State x \<noteq> None \<and> StateDiff x \<noteq> None \<longrightarrow> b = a) \<longrightarrow> a' = a) \<and>
           (\<forall>k. readAccount (snd (ApplyStateOverlay so v)) k = readAccount v k) \<and>
           backing (snd (ApplyStateOverlay so v)) = backing v \<and>
           overlay (snd (ApplyStateOverlay so v)) = overlay v \<and>
           ApplyState so (readAccount v) = Inl (ConflictingStateOverride a')"
proof -
  have "firstConflict so \<noteq> None"
  proof
    assume "firstConflict so = None"
    then have "\<forall>(b, x) \<in> set so. State x = None \<or> StateDiff x = None"
      by (simp only: firstConflict_None)
    from this assms(1) have "case (a, ov) of (b, x) \<Rightarrow> State x = None \<or> StateDiff x = None"
      by (rule bspec)
    then have "State ov = None \<or> StateDiff ov = None" by simp
    with assms(2,3) show False by auto
  qed
  then obtain a' where f: "firstConflict so = Some a'" by blast
  from firstConflict_Some [OF f] obtain ov' pre post where
    so: "so = pre @ (a', ov') # post" and c: "State ov' \<noteq> None" "StateDiff ov' \<noteq> None" and
    p: "\<forall>(b, x) \<in> set pre. State x = None \<or> StateDiff x = None"
    by blast
  from f have r: "ApplyStateOverlay so v = (Some (ConflictingStateOverride a'), v)"
    by (simp add: ApplyStateOverlay_def)
  have first: "\<forall>p q. so = p @ (a, ov) # q \<and>
      (\<forall>(b, x) \<in> set p. State x = None \<or> StateDiff x = None) \<longrightarrow> a' = a"
  proof (intro allI impI, elim conjE)
    fix p' q'
    assume e: "so = p' @ (a, ov) # q'"
      and v: "\<forall>(b, x) \<in> set p'. State x = None \<or> StateDiff x = None"
    from v assms(2,3) have "firstConflict (p' @ (a, ov) # q') = Some a"
      by (rule firstConflict_prefix)
    with e f show "a' = a" by simp
  qed
  have only: "(\<forall>(b, x) \<in> set so. State x \<noteq> None \<and> StateDiff x \<noteq> None \<longrightarrow> b = a) \<longrightarrow> a' = a"
  proof
    assume h: "\<forall>(b, x) \<in> set so. State x \<noteq> None \<and> StateDiff x \<noteq> None \<longrightarrow> b = a"
    from so have "(a', ov') \<in> set so" by simp
    with h have "case (a', ov') of (b, x) \<Rightarrow> State x \<noteq> None \<and> StateDiff x \<noteq> None \<longrightarrow> b = a"
      by (rule bspec)
    with c show "a' = a" by simp
  qed
  from r have same: "\<forall>k. readAccount (snd (ApplyStateOverlay so v)) k = readAccount v k"
    and bk: "backing (snd (ApplyStateOverlay so v)) = backing v"
    and ol: "overlay (snd (ApplyStateOverlay so v)) = overlay v"
    by simp_all
  from f have s: "ApplyState so (readAccount v) = Inl (ConflictingStateOverride a')"
    by (rule firstConflict_ApplyState)
  from r so c p first only same bk ol s have
    "ApplyStateOverlay so v = (Some (ConflictingStateOverride a'), v) \<and>
     so = pre @ (a', ov') # post \<and> State ov' \<noteq> None \<and> StateDiff ov' \<noteq> None \<and>
     (\<forall>(b, x) \<in> set pre. State x = None \<or> StateDiff x = None) \<and>
     (\<forall>p q. so = p @ (a, ov) # q \<and>
        (\<forall>(b, x) \<in> set p. State x = None \<or> StateDiff x = None) \<longrightarrow> a' = a) \<and>
     ((\<forall>(b, x) \<in> set so. State x \<noteq> None \<and> StateDiff x \<noteq> None \<longrightarrow> b = a) \<longrightarrow> a' = a) \<and>
     (\<forall>k. readAccount (snd (ApplyStateOverlay so v)) k = readAccount v k) \<and>
     backing (snd (ApplyStateOverlay so v)) = backing v \<and>
     overlay (snd (ApplyStateOverlay so v)) = overlay v \<and>
     ApplyState so (readAccount v) = Inl (ConflictingStateOverride a')"
    by (intro conjI)
  then show ?thesis
    apply -
    apply (rule exI, rule exI, rule exI, rule exI)
    apply assumption
    done
qed

theorem ApplyStateOverlay_rejects_conflict_witness:
  "(EthHash 8, conflictingOverride) \<in> set conflictingStateOverride \<and>
   State conflictingOverride \<noteq> None \<and> StateDiff conflictingOverride \<noteq> None \<and>
   ApplyStateOverlay conflictingStateOverride baseView =
     (Some (ConflictingStateOverride (EthHash 8)), baseView) \<and>
   ApplyState conflictingStateOverride (readAccount baseView) =
     Inl (ConflictingStateOverride (EthHash 8))"
proof -
  have m: "(EthHash 8, conflictingOverride) \<in> set conflictingStateOverride"
    by (simp add: conflictingStateOverride_def)
  have s: "State conflictingOverride \<noteq> None" and d: "StateDiff conflictingOverride \<noteq> None"
    by (simp_all add: conflictingOverride_def noAccountOverride_def)
  have only: "\<forall>(b, x) \<in> set conflictingStateOverride.
      State x \<noteq> None \<and> StateDiff x \<noteq> None \<longrightarrow> b = EthHash 8"
    by (simp add: conflictingStateOverride_def nonceOverride_def noAccountOverride_def)
  from ApplyStateOverlay_rejects_conflict [OF m s d, of baseView] obtain a' where
    r: "ApplyStateOverlay conflictingStateOverride baseView =
          (Some (ConflictingStateOverride a'), baseView)" and
    o: "(\<forall>(b, x) \<in> set conflictingStateOverride.
          State x \<noteq> None \<and> StateDiff x \<noteq> None \<longrightarrow> b = EthHash 8) \<longrightarrow> a' = EthHash 8" and
    p: "ApplyState conflictingStateOverride (readAccount baseView) =
          Inl (ConflictingStateOverride a')"
    by blast
  from o only have "a' = EthHash 8" by blast
  with r p m s d show ?thesis by simp
qed

text \<open>
  C5. For an override that is not rejected: when \<open>State\<close> is present, the storage of the
  resulting account is the given slot map, a listed slot reads as listed and a slot not
  listed reads as the zero value; when \<open>StateDiff\<close> is present instead, a listed slot
  reads as the diff's value and a slot not listed is as in the base account.
\<close>

theorem applyAccount_storage_override:
  "(State ov = Some m \<and> StateDiff ov = None \<longrightarrow>
      (\<exists>acc'. applyAccount a ov acc = Inr acc' \<and> storage acc' = m \<and>
         (\<forall>k v. m k = Some v \<longrightarrow> readSlot acc' k = v) \<and>
         (\<forall>k. m k = None \<longrightarrow> readSlot acc' k = zeroHash))) \<and>
   (State ov = None \<and> StateDiff ov = Some m \<longrightarrow>
      (\<exists>acc'. applyAccount a ov acc = Inr acc' \<and>
         (\<forall>k v. m k = Some v \<longrightarrow> readSlot acc' k = v) \<and>
         (\<forall>k. m k = None \<longrightarrow> storage acc' k = storage acc k \<and> readSlot acc' k = readSlot acc k)))"
proof (intro conjI impI)
  assume h: "State ov = Some m \<and> StateDiff ov = None"
  then have "applyAccount a ov acc =
      Inr (overrideStorage ov (overrideBalance ov (overrideCode ov (overrideNonce ov acc))))"
    by (simp add: applyAccount_valid)
  moreover from h have
    "storage (overrideStorage ov (overrideBalance ov (overrideCode ov (overrideNonce ov acc)))) = m"
    by (simp add: overrideStorage_def)
  ultimately show "\<exists>acc'. applyAccount a ov acc = Inr acc' \<and> storage acc' = m \<and>
      (\<forall>k v. m k = Some v \<longrightarrow> readSlot acc' k = v) \<and>
      (\<forall>k. m k = None \<longrightarrow> readSlot acc' k = zeroHash)"
    by (simp add: readSlot_def)
next
  assume h: "State ov = None \<and> StateDiff ov = Some m"
  then have "applyAccount a ov acc =
      Inr (overrideStorage ov (overrideBalance ov (overrideCode ov (overrideNonce ov acc))))"
    by (simp add: applyAccount_valid)
  moreover from h have
    "storage (overrideStorage ov (overrideBalance ov (overrideCode ov (overrideNonce ov acc)))) =
       storage acc ++ m"
    by (simp add: overrideStorage_def overrides_keep_storage)
  ultimately show "\<exists>acc'. applyAccount a ov acc = Inr acc' \<and>
      (\<forall>k v. m k = Some v \<longrightarrow> readSlot acc' k = v) \<and>
      (\<forall>k. m k = None \<longrightarrow> storage acc' k = storage acc k \<and> readSlot acc' k = readSlot acc k)"
    by (simp add: readSlot_def map_add_def)
qed

theorem applyAccount_storage_override_witness:
  "(\<exists>acc'. applyAccount (EthHash 7) stateOverride baseAccount = Inr acc' \<and>
      readSlot acc' (EthHash 1) = EthHash 11 \<and> readSlot acc' (EthHash 2) = EthHash 0) \<and>
   (\<exists>acc'. applyAccount (EthHash 7) stateDiffOverride baseAccount = Inr acc' \<and>
      readSlot acc' (EthHash 1) = EthHash 11 \<and> readSlot acc' (EthHash 2) = EthHash 20)"
proof -
  have s: "State stateOverride = Some [EthHash 1 \<mapsto> EthHash 11] \<and> StateDiff stateOverride = None"
    by (simp add: stateOverride_def noAccountOverride_def)
  have d: "State stateDiffOverride = None \<and>
      StateDiff stateDiffOverride = Some [EthHash 1 \<mapsto> EthHash 11]"
    by (simp add: stateDiffOverride_def noAccountOverride_def)
  have b: "readSlot baseAccount (EthHash 2) = EthHash 20"
    by (simp add: readSlot_def baseAccount_def)
  from s applyAccount_storage_override
    [of stateOverride "[EthHash 1 \<mapsto> EthHash 11]" "EthHash 7" baseAccount]
  obtain acc1 where
    "applyAccount (EthHash 7) stateOverride baseAccount = Inr acc1"
    "\<forall>k v. [EthHash 1 \<mapsto> EthHash 11] k = Some v \<longrightarrow> readSlot acc1 k = v"
    "\<forall>k. [EthHash 1 \<mapsto> EthHash 11] k = None \<longrightarrow> readSlot acc1 k = zeroHash"
    by blast
  then have one: "\<exists>acc'. applyAccount (EthHash 7) stateOverride baseAccount = Inr acc' \<and>
      readSlot acc' (EthHash 1) = EthHash 11 \<and> readSlot acc' (EthHash 2) = EthHash 0"
    by (simp add: zeroHash_def)
  from d applyAccount_storage_override
    [of stateDiffOverride "[EthHash 1 \<mapsto> EthHash 11]" "EthHash 7" baseAccount]
  obtain acc2 where
    "applyAccount (EthHash 7) stateDiffOverride baseAccount = Inr acc2"
    "\<forall>k v. [EthHash 1 \<mapsto> EthHash 11] k = Some v \<longrightarrow> readSlot acc2 k = v"
    "\<forall>k. [EthHash 1 \<mapsto> EthHash 11] k = None \<longrightarrow>
       storage acc2 k = storage baseAccount k \<and> readSlot acc2 k = readSlot baseAccount k"
    by blast
  with b have two: "\<exists>acc'. applyAccount (EthHash 7) stateDiffOverride baseAccount = Inr acc' \<and>
      readSlot acc' (EthHash 1) = EthHash 11 \<and> readSlot acc' (EthHash 2) = EthHash 20"
    by simp
  from one two show ?thesis by blast
qed

text \<open>
  C6. The balance override has three states, and for an override that is not rejected
  each gives its own balance: outer pointer nil, the base balance; outer pointer set and
  inner pointer nil, zero; both set, the value pointed to.
\<close>

theorem applyAccount_balance_override:
  assumes "State ov = None \<or> StateDiff ov = None"
  shows "\<exists>acc'. applyAccount a ov acc = Inr acc' \<and>
           (Balance ov = None \<longrightarrow> balance acc' = balance acc) \<and>
           (Balance ov = Some None \<longrightarrow> balance acc' = zeroBalance \<and> Int' (balance acc') = Some 0) \<and>
           (\<forall>v. Balance ov = Some (Some v) \<longrightarrow> balance acc' = v)"
  by (simp add: applyAccount_valid [OF assms] overrideStorage_keeps_balance
        overrideBalance_balance zeroBalance_def)

theorem applyAccount_balance_override_witness:
  "(\<exists>acc'. applyAccount (EthHash 7) noAccountOverride baseAccount = Inr acc' \<and>
      Int' (balance acc') = Some 5) \<and>
   (\<exists>acc'. applyAccount (EthHash 7) clearBalance baseAccount = Inr acc' \<and>
      Int' (balance acc') = Some 0) \<and>
   (\<exists>acc'. applyAccount (EthHash 7) setBalance baseAccount = Inr acc' \<and>
      Int' (balance acc') = Some 7)"
proof -
  have v: "State noAccountOverride = None \<or> StateDiff noAccountOverride = None"
    "State clearBalance = None \<or> StateDiff clearBalance = None"
    "State setBalance = None \<or> StateDiff setBalance = None"
    by (simp_all add: noAccountOverride_def clearBalance_def setBalance_def)
  have b: "Balance noAccountOverride = None" "Balance clearBalance = Some None"
    "Balance setBalance = Some (Some \<lparr>Int' = Some 7\<rparr>)"
    by (simp_all add: noAccountOverride_def clearBalance_def setBalance_def)
  have base: "Int' (balance baseAccount) = Some 5"
    by (simp add: baseAccount_def)
  from applyAccount_balance_override [OF v(1), of "EthHash 7" baseAccount] b(1) base
  have one: "\<exists>acc'. applyAccount (EthHash 7) noAccountOverride baseAccount = Inr acc' \<and>
      Int' (balance acc') = Some 5"
    by auto
  from applyAccount_balance_override [OF v(2), of "EthHash 7" baseAccount] b(2)
  have two: "\<exists>acc'. applyAccount (EthHash 7) clearBalance baseAccount = Inr acc' \<and>
      Int' (balance acc') = Some 0"
    by auto
  from applyAccount_balance_override [OF v(3), of "EthHash 7" baseAccount] b(3)
  have three: "\<exists>acc'. applyAccount (EthHash 7) setBalance baseAccount = Inr acc' \<and>
      Int' (balance acc') = Some 7"
    by auto
  from one two three show ?thesis by blast
qed

text \<open>
  C8. The keys of a \<open>StateOverride\<close> are declared as \<^verbatim>\<open>EthHash\<close> values: every key of
  every state override is a hash value, not an \<^verbatim>\<open>EthAddress\<close>.
\<close>

theorem StateOverride_keys_are_hashes: "\<exists>hs. keys (so :: StateOverride) = map EthHash hs"
proof
  show "keys so = map EthHash (map (\<lambda>k. case k of EthHash h \<Rightarrow> h) (keys so))"
    by (induction so) (simp_all add: keys_def split: EthHash.splits)
qed

end
